theory Spec2Isabelle
  imports Main "HOL-Library.Word" "HOL-Library.Signed_Division"
begin

unbundle bit_operations_syntax

section \<open>The emulated LED panel (panel_emu.c)\<close>

text \<open>
  The emulator keeps its state in file-level statics. They are gathered in one record, and
  every function of the C file becomes a function from state to state. C \<open>int\<close> values are
  modelled as \<open>int\<close>; \<open>uint8_t\<close> is \<open>8 word\<close>. C's \<open>%\<close> truncates towards zero and is
  \<open>smod\<close>; the array subscripts of the source are \<open>!\<close> and list update at \<open>nat i\<close>.
  The index arithmetic of a well-formed state stays far below the range of a 32-bit
  \<open>int\<close> (see \<open>wf\<close> and the bounds lemmas); the one subtraction applied to an
  arbitrary caller value, in \<open>SelectRow\<close>, is wrapped to 32 bits explicitly.
  The calls into JavaScript (\<open>js_set_display_state\<close>, \<open>js_render_frame\<close>) receive
  values and a read-only pointer and write none of the statics, so they have no counterpart
  in the state functions.
\<close>

type_synonym uint8_t = "8 word"

abbreviation (input) PANEL_PIXEL_WIDTH :: int where "PANEL_PIXEL_WIDTH \<equiv> 32"
abbreviation (input) PANEL_PIXEL_HEIGHT :: int where "PANEL_PIXEL_HEIGHT \<equiv> 32"
abbreviation (input) PANEL_ROW_PAIRS :: int where "PANEL_ROW_PAIRS \<equiv> 16"
abbreviation (input) PANEL_SHIFT_BITS :: int where "PANEL_SHIFT_BITS \<equiv> 192"

record panel_state =
  latchedFramebufferRgb :: "uint8_t list"
  shiftRegisterBits :: "uint8_t list"
  shiftRegisterOldestIndex :: int
  shiftRegisterBitCount :: int
  selectedRowPairIndex :: int
  latchLineIsLow :: bool
  displayIsEnabled :: bool

text \<open>The value of the statics when the program is loaded (their C initialisers).\<close>

definition power_on :: panel_state where
  "power_on =
     \<lparr> latchedFramebufferRgb = replicate 3072 0,
       shiftRegisterBits = replicate 192 0,
       shiftRegisterOldestIndex = 0,
       shiftRegisterBitCount = 0,
       selectedRowPairIndex = 0,
       latchLineIsLow = False,
       displayIsEnabled = True \<rparr>"

text \<open>The value a 32-bit two's complement \<open>int\<close> holds after an operation whose
  mathematical result is \<open>k\<close>.\<close>

definition int32 :: "int \<Rightarrow> int" where
  "int32 k = signed_take_bit 31 k"

definition shiftRegisterPushBit :: "uint8_t \<Rightarrow> panel_state \<Rightarrow> panel_state" where
  "shiftRegisterPushBit bitValue0 s =
     (let bitValue = (if bitValue0 \<noteq> 0 then 1 else 0) in
      if shiftRegisterBitCount s < PANEL_SHIFT_BITS then
        let writeIndex =
              (shiftRegisterOldestIndex s + shiftRegisterBitCount s) smod PANEL_SHIFT_BITS
        in s\<lparr> shiftRegisterBits := (shiftRegisterBits s)[nat writeIndex := bitValue],
               shiftRegisterBitCount := shiftRegisterBitCount s + 1 \<rparr>
      else
        let oldest = (shiftRegisterOldestIndex s + 1) smod PANEL_SHIFT_BITS;
            writeIndex = (oldest + PANEL_SHIFT_BITS - 1) smod PANEL_SHIFT_BITS
        in s\<lparr> shiftRegisterOldestIndex := oldest,
               shiftRegisterBits := (shiftRegisterBits s)[nat writeIndex := bitValue] \<rparr>)"

definition shiftRegisterGetBit :: "int \<Rightarrow> panel_state \<Rightarrow> uint8_t" where
  "shiftRegisterGetBit logicalIndex s =
     (let physicalIndex = (shiftRegisterOldestIndex s + logicalIndex) smod PANEL_SHIFT_BITS
      in shiftRegisterBits s ! nat physicalIndex AND 1)"

text \<open>One iteration of the loop of \<open>commitShiftRegisterToFramebufferForSelectedRow\<close>,
  for column \<open>x\<close>: six reads from the shift register, six stores to the framebuffer.\<close>

definition commit_column :: "int \<Rightarrow> int \<Rightarrow> int \<Rightarrow> panel_state \<Rightarrow> panel_state" where
  "commit_column topRowY bottomRowY x s =
     (let topR = shiftRegisterGetBit (0 * PANEL_PIXEL_WIDTH + x) s;
          topG = shiftRegisterGetBit (1 * PANEL_PIXEL_WIDTH + x) s;
          topB = shiftRegisterGetBit (2 * PANEL_PIXEL_WIDTH + x) s;
          bottomR = shiftRegisterGetBit (3 * PANEL_PIXEL_WIDTH + x) s;
          bottomG = shiftRegisterGetBit (4 * PANEL_PIXEL_WIDTH + x) s;
          bottomB = shiftRegisterGetBit (5 * PANEL_PIXEL_WIDTH + x) s;
          topPixelIndex = (topRowY * PANEL_PIXEL_WIDTH + x) * 3;
          bottomPixelIndex = (bottomRowY * PANEL_PIXEL_WIDTH + x) * 3
      in s\<lparr> latchedFramebufferRgb :=
               (latchedFramebufferRgb s)
                 [nat (topPixelIndex + 0) := topR,
                  nat (topPixelIndex + 1) := topG,
                  nat (topPixelIndex + 2) := topB,
                  nat (bottomPixelIndex + 0) := bottomR,
                  nat (bottomPixelIndex + 1) := bottomG,
                  nat (bottomPixelIndex + 2) := bottomB] \<rparr>)"

function commit_loop :: "int \<Rightarrow> int \<Rightarrow> int \<Rightarrow> panel_state \<Rightarrow> panel_state" where
  "commit_loop topRowY bottomRowY x s =
     (if x < PANEL_PIXEL_WIDTH
      then commit_loop topRowY bottomRowY (x + 1) (commit_column topRowY bottomRowY x s)
      else s)"
  by pat_completeness auto
termination
  by (relation "measure (\<lambda>(t, b, x, s). nat (PANEL_PIXEL_WIDTH - x))") auto

declare commit_loop.simps [simp del]

definition commitShiftRegisterToFramebufferForSelectedRow :: "panel_state \<Rightarrow> panel_state" where
  "commitShiftRegisterToFramebufferForSelectedRow s =
     (let rowPair = selectedRowPairIndex s AND 0x0F;
          topRowY = rowPair;
          bottomRowY = rowPair + 16
      in commit_loop topRowY bottomRowY 0 s)"

definition setupPanel :: "panel_state \<Rightarrow> panel_state" where
  "setupPanel s =
     s\<lparr> latchedFramebufferRgb := replicate (nat (PANEL_PIXEL_WIDTH * PANEL_PIXEL_HEIGHT * 3)) 0,
        shiftRegisterBits := replicate (nat PANEL_SHIFT_BITS) 0,
        shiftRegisterOldestIndex := 0,
        shiftRegisterBitCount := PANEL_SHIFT_BITS,
        selectedRowPairIndex := 0,
        latchLineIsLow := False,
        displayIsEnabled := True \<rparr>"

definition PrepareLatch :: "panel_state \<Rightarrow> panel_state" where
  "PrepareLatch s = s\<lparr> latchLineIsLow := True, displayIsEnabled := False \<rparr>"

definition LatchRegister :: "panel_state \<Rightarrow> panel_state" where
  "LatchRegister s =
     commitShiftRegisterToFramebufferForSelectedRow
       (s\<lparr> latchLineIsLow := False, displayIsEnabled := True \<rparr>)"

definition SelectRow :: "int \<Rightarrow> panel_state \<Rightarrow> panel_state" where
  "SelectRow row s = s\<lparr> selectedRowPairIndex := int32 (row - 1) AND 0x0F \<rparr>"

definition PushBit :: "int \<Rightarrow> panel_state \<Rightarrow> panel_state" where
  "PushBit onoff s = shiftRegisterPushBit (if onoff \<noteq> 0 then 1 else 0) s"

function ClearRow_loop :: "int \<Rightarrow> panel_state \<Rightarrow> panel_state" where
  "ClearRow_loop bitIndex s =
     (if bitIndex < PANEL_SHIFT_BITS then ClearRow_loop (bitIndex + 1) (PushBit 0 s) else s)"
  by pat_completeness auto
termination
  by (relation "measure (\<lambda>(i, s). nat (PANEL_SHIFT_BITS - i))") auto

declare ClearRow_loop.simps [simp del]

definition ClearRow :: "int \<Rightarrow> panel_state \<Rightarrow> panel_state" where
  "ClearRow row s = ClearRow_loop 0 (SelectRow row s)"

section \<open>Driver call sequences\<close>

text \<open>The calls a driver can make through panel.h that touch the panel state, and the
  state after a sequence of them, executed in order.\<close>

datatype call =
    Call_setupPanel
  | Call_PrepareLatch
  | Call_LatchRegister
  | Call_SelectRow int
  | Call_PushBit int
  | Call_ClearRow int

fun exec :: "call \<Rightarrow> panel_state \<Rightarrow> panel_state" where
  "exec Call_setupPanel s = setupPanel s"
| "exec Call_PrepareLatch s = PrepareLatch s"
| "exec Call_LatchRegister s = LatchRegister s"
| "exec (Call_SelectRow row) s = SelectRow row s"
| "exec (Call_PushBit onoff) s = PushBit onoff s"
| "exec (Call_ClearRow row) s = ClearRow row s"

fun run :: "call list \<Rightarrow> panel_state \<Rightarrow> panel_state" where
  "run [] s = s"
| "run (c # cs) s = run cs (exec c s)"

text \<open>\<open>PushBit\<close> called once for each element of a list, first element first.\<close>

fun push_all :: "int list \<Rightarrow> panel_state \<Rightarrow> panel_state" where
  "push_all [] s = s"
| "push_all (b # bs) s = push_all bs (PushBit b s)"

section \<open>Views of the state used to state the properties\<close>

text \<open>A state is well formed when the two arrays have the sizes of their C declarations,
  the oldest index is a valid subscript and the bit count is between 0 and 192. Every
  subscript the functions compute in such a state is inside its array.\<close>

definition wf :: "panel_state \<Rightarrow> bool" where
  "wf s \<longleftrightarrow>
     length (latchedFramebufferRgb s) = 3072 \<and>
     length (shiftRegisterBits s) = 192 \<and>
     0 \<le> shiftRegisterOldestIndex s \<and> shiftRegisterOldestIndex s < 192 \<and>
     0 \<le> shiftRegisterBitCount s \<and> shiftRegisterBitCount s \<le> 192"

text \<open>The bit a C value stands for: zero is 0, anything else is 1.\<close>

definition bit_of :: "uint8_t \<Rightarrow> uint8_t" where
  "bit_of b = (if b \<noteq> 0 then 1 else 0)"

definition bit_of_int :: "int \<Rightarrow> uint8_t" where
  "bit_of_int onoff = (if onoff \<noteq> 0 then 1 else 0)"

text \<open>The 192 bits of the buffer in logical order: index 0 is what
  \<open>shiftRegisterGetBit 0\<close> returns, index 191 what \<open>shiftRegisterGetBit 191\<close> returns.\<close>

definition logical :: "panel_state \<Rightarrow> uint8_t list" where
  "logical s = map (\<lambda>i. shiftRegisterGetBit (int i) s) [0..<192]"

text \<open>The first \<open>shiftRegisterBitCount\<close> logical bits: the ones counted as valid.\<close>

definition retained :: "panel_state \<Rightarrow> uint8_t list" where
  "retained s = take (nat (shiftRegisterBitCount s)) (logical s)"

definition lastn :: "nat \<Rightarrow> 'a list \<Rightarrow> 'a list" where
  "lastn n xs = drop (length xs - n) xs"

text \<open>The subscript of channel \<open>c\<close> (0 = R, 1 = G, 2 = B) of the pixel in row \<open>y\<close>,
  column \<open>x\<close>, by the layout \<open>(y * 32 + x) * 3 + c\<close> of the source, and the byte a
  framebuffer holds there.\<close>

definition pixel_index :: "int \<Rightarrow> int \<Rightarrow> int \<Rightarrow> int" where
  "pixel_index y x c = (y * PANEL_PIXEL_WIDTH + x) * 3 + c"

definition pixel :: "uint8_t list \<Rightarrow> int \<Rightarrow> int \<Rightarrow> int \<Rightarrow> uint8_t" where
  "pixel fb y x c = fb ! nat (pixel_index y x c)"

section \<open>Example states\<close>

text \<open>Three concrete values used to instantiate the properties below: a panel that has
  latched an all-ones buffer at row address 5 (rows 5 and 21 lit), a row payload of 96 ones
  followed by 96 zeros, and the panel after that payload has been pushed with row address 2
  selected and not yet latched.\<close>

definition example_latched :: panel_state where
  "example_latched =
     LatchRegister (push_all (replicate 192 1) (SelectRow 6 (setupPanel power_on)))"

definition example_payload :: "int list" where
  "example_payload = replicate 96 1 @ replicate 96 0"

definition example_loaded :: panel_state where
  "example_loaded = push_all example_payload (SelectRow 3 example_latched)"

section \<open>Arithmetic of the circular index\<close>

lemma smod_nonneg: "(a::int) \<ge> 0 \<Longrightarrow> b > 0 \<Longrightarrow> a smod b = a mod b"
  by (simp add: smod_int_alt_def sgn_if)

lemma mod192:
  assumes "0 \<le> a" "a < 384"
  shows "(a::int) mod 192 = (if a < 192 then a else a - 192)"
proof (cases "a < 192")
  case True
  then show ?thesis using assms by simp
next
  case False
  then have "(a - 192) mod 192 = a - 192" using assms by (intro mod_pos_pos_trivial) simp_all
  moreover have "(a - 192) mod 192 = a mod 192" by simp
  ultimately show ?thesis using False by simp
qed

lemma bit_of_and1 [simp]: "bit_of b AND 1 = bit_of b"
  by (simp add: bit_of_def)

lemma get_wf:
  "wf s \<Longrightarrow> 0 \<le> i \<Longrightarrow>
   shiftRegisterGetBit i s = shiftRegisterBits s ! nat ((shiftRegisterOldestIndex s + i) mod 192) AND 1"
  by (simp add: shiftRegisterGetBit_def wf_def smod_nonneg)

lemma push_wf: "wf s \<Longrightarrow> wf (shiftRegisterPushBit b s)"
  by (auto simp: wf_def shiftRegisterPushBit_def Let_def smod_nonneg)

lemma push_get_fill:
  assumes "wf s" "shiftRegisterBitCount s < 192" "0 \<le> i" "i < 192"
  shows "shiftRegisterGetBit i (shiftRegisterPushBit b s) =
           (if i = shiftRegisterBitCount s then bit_of b else shiftRegisterGetBit i s)"
proof -
  let ?o = "shiftRegisterOldestIndex s" and ?c = "shiftRegisterBitCount s"
  from assms have b: "0 \<le> ?o" "?o < 192" "0 \<le> ?c" by (simp_all add: wf_def)
  have len: "length (shiftRegisterBits s) = 192" using assms by (simp add: wf_def)
  have eq: "((?o + ?c) mod 192 = (?o + i) mod 192) = (i = ?c)"
    using b assms(2-4) by (auto simp add: mod192)
  have n: "(nat ((?o + ?c) mod 192) = nat ((?o + i) mod 192)) = (i = ?c)"
    using eq by (auto simp: nat_eq_iff)
  have w: "wf (shiftRegisterPushBit b s)" using assms(1) by (rule push_wf)
  have g: "shiftRegisterGetBit i (shiftRegisterPushBit b s) =
     (shiftRegisterBits s)[nat ((?o + ?c) mod 192) := bit_of b] ! nat ((?o + i) mod 192) AND 1"
    using assms(2,3) b
    by (simp add: get_wf[OF w]) (simp add: shiftRegisterPushBit_def smod_nonneg  bit_of_def)
  show ?thesis
    unfolding g using n len assms(3) 
    by (simp add: nth_list_update get_wf[OF assms(1)])
qed

lemma push_get_shift:
  assumes "wf s" "shiftRegisterBitCount s = 192" "0 \<le> i" "i < 192"
  shows "shiftRegisterGetBit i (shiftRegisterPushBit b s) =
           (if i = 191 then bit_of b else shiftRegisterGetBit (i + 1) s)"
proof -
  let ?o = "shiftRegisterOldestIndex s" 
  from assms have b: "0 \<le> ?o" "?o < 192" by (simp_all add: wf_def)
  have len: "length (shiftRegisterBits s) = 192" using assms by (simp add: wf_def)
  have wi: "((?o + 1) mod 192 + 192 - 1) mod 192 = ?o" using b by (simp add: mod192)
  have rd: "((?o + 1) mod 192 + i) mod 192 = (?o + (i + 1)) mod 192" 
    by (simp add: mod_simps add.commute add.left_commute)
  have eq: "((?o + (i + 1)) mod 192 = ?o) = (i = 191)"
    using b assms(3,4) by (simp add: mod192)
  have n: "(nat ?o = nat ((?o + (i + 1)) mod 192)) = (i = 191)"
    using eq b by (auto simp: nat_eq_iff)
  have w: "wf (shiftRegisterPushBit b s)" using assms(1) by (rule push_wf)
  have i1: "0 \<le> i + 1" using assms(3) by simp
  have pos: "0 \<le> (?o + 1) mod 192 + 192 - 1" using b by simp
  have g: "shiftRegisterGetBit i (shiftRegisterPushBit b s) =
     (shiftRegisterBits s)[nat ?o := bit_of b] ! nat ((?o + (i + 1)) mod 192) AND 1"
    using assms(2,3) b wi rd pos
    by (simp add: get_wf[OF w]) (simp add: shiftRegisterPushBit_def smod_nonneg  bit_of_def)
  show ?thesis
    unfolding g using n len b
    by (simp add: nth_list_update get_wf[OF assms(1) i1])
qed

section \<open>The logical view under pushes\<close>

lemma length_logical [simp]: "length (logical s) = 192"
  by (simp add: logical_def)

lemma logical_nth: "i < 192 \<Longrightarrow> logical s ! i = shiftRegisterGetBit (int i) s"
  by (simp add: logical_def)

lemma push_count:
  "shiftRegisterBitCount (shiftRegisterPushBit b s) =
     (if shiftRegisterBitCount s < 192 then shiftRegisterBitCount s + 1 else shiftRegisterBitCount s)"
  by (simp add: shiftRegisterPushBit_def Let_def)

lemma logical_push_fill:
  assumes "wf s" "shiftRegisterBitCount s < 192"
  shows "logical (shiftRegisterPushBit b s) = (logical s)[nat (shiftRegisterBitCount s) := bit_of b]"
proof (rule nth_equalityI)
  show "length (logical (shiftRegisterPushBit b s)) =
        length ((logical s)[nat (shiftRegisterBitCount s) := bit_of b])" by simp
next
  fix i assume "i < length (logical (shiftRegisterPushBit b s))"
  then have i: "i < 192" by simp
  have c: "0 \<le> shiftRegisterBitCount s" using assms(1) by (simp add: wf_def)
  have "(int i = shiftRegisterBitCount s) = (nat (shiftRegisterBitCount s) = i)"
    using c by auto
  then show "logical (shiftRegisterPushBit b s) ! i =
        (logical s)[nat (shiftRegisterBitCount s) := bit_of b] ! i"
    using i assms by (simp add: logical_nth push_get_fill nth_list_update)
qed

lemma logical_push_shift:
  assumes "wf s" "shiftRegisterBitCount s = 192"
  shows "logical (shiftRegisterPushBit b s) = drop 1 (logical s) @ [bit_of b]"
proof (rule nth_equalityI)
  show "length (logical (shiftRegisterPushBit b s)) = length (drop 1 (logical s) @ [bit_of b])"
    by simp
next
  fix i assume "i < length (logical (shiftRegisterPushBit b s))"
  then have i: "i < 192" by simp
  show "logical (shiftRegisterPushBit b s) ! i = (drop 1 (logical s) @ [bit_of b]) ! i"
  proof (cases "i = 191")
    case True
    then show ?thesis using assms by (simp add: logical_nth push_get_shift nth_append)
  next
    case False
    then have "i < 191" using i by simp
    then show ?thesis using assms
      by (simp add: logical_nth push_get_shift nth_append add.commute)
  qed
qed

lemma length_retained: "wf s \<Longrightarrow> length (retained s) = nat (shiftRegisterBitCount s)"
  by (auto simp: retained_def wf_def)

lemma retained_push:
  assumes "wf s"
  shows "retained (shiftRegisterPushBit b s) = lastn 192 (retained s @ [bit_of b])"
proof (cases "shiftRegisterBitCount s < 192")
  case True
  let ?c = "nat (shiftRegisterBitCount s)"
  have c: "?c < 192" "0 \<le> shiftRegisterBitCount s" using True assms by (simp_all add: wf_def)
  have n: "nat (shiftRegisterBitCount s + 1) = Suc ?c" using c by simp
  have "retained (shiftRegisterPushBit b s) = take (Suc ?c) ((logical s)[?c := bit_of b])"
    using True assms n by (simp add: retained_def push_count logical_push_fill)
  also have "\<dots> = take ?c (logical s) @ [bit_of b]"
    using c by (simp add: take_Suc_conv_app_nth)
  finally show ?thesis
    using c by (simp add: retained_def lastn_def)
next
  case False
  then have c: "shiftRegisterBitCount s = 192" using assms by (simp add: wf_def)
  then show ?thesis using assms
    by (simp add: retained_def push_count logical_push_shift lastn_def)
qed

lemma lastn_lastn_append: "lastn n (lastn n xs @ ys) = lastn n (xs @ ys)"
  by (cases "n \<le> length xs") (simp_all add: lastn_def add.commute)

lemma PushBit_wf: "wf s \<Longrightarrow> wf (PushBit b s)"
  by (simp add: PushBit_def push_wf)

lemma retained_PushBit:
  "wf s \<Longrightarrow> retained (PushBit b s) = lastn 192 (retained s @ [bit_of_int b])"
  by (simp add: PushBit_def retained_push bit_of_def bit_of_int_def)

lemma push_all_wf: "wf s \<Longrightarrow> wf (push_all bs s)"
  by (induction bs arbitrary: s) (simp_all add: PushBit_wf)

lemma retained_push_all:
  "wf s \<Longrightarrow> retained (push_all bs s) = lastn 192 (retained s @ map bit_of_int bs)"
proof (induction bs arbitrary: s)
  case Nil
  then have "nat (shiftRegisterBitCount s) - 192 = 0" by (auto simp: wf_def)
  with Nil show ?case by (simp add: lastn_def length_retained)
next
  case (Cons b bs)
  have "retained (push_all (b # bs) s) = lastn 192 (retained (PushBit b s) @ map bit_of_int bs)"
    using Cons by (simp add: PushBit_wf)
  also have "\<dots> = lastn 192 ((retained s @ [bit_of_int b]) @ map bit_of_int bs)"
    using Cons.prems by (simp only: retained_PushBit lastn_lastn_append)
  finally show ?case by simp
qed

lemma count_eq_length_retained: "wf s \<Longrightarrow> shiftRegisterBitCount s = int (length (retained s))"
  by (simp add: length_retained wf_def)

lemma push_all_count_full:
  assumes "wf s" "192 \<le> length bs"
  shows "shiftRegisterBitCount (push_all bs s) = 192"
proof -
  have "shiftRegisterBitCount (push_all bs s) = int (length (retained (push_all bs s)))"
    using assms(1) by (simp add: count_eq_length_retained push_all_wf)
  also have "\<dots> = 192" using assms by (simp add: retained_push_all lastn_def)
  finally show ?thesis .
qed

lemma logical_push_all:
  assumes "wf s" "192 \<le> length bs"
  shows "logical (push_all bs s) = lastn 192 (map bit_of_int bs)"
proof -
  have "logical (push_all bs s) = retained (push_all bs s)"
    using assms by (simp add: retained_def push_all_count_full)
  also have "\<dots> = lastn 192 (retained s @ map bit_of_int bs)"
    using assms(1) by (rule retained_push_all)
  also have "\<dots> = lastn 192 (map bit_of_int bs)"
    using assms(2) by (simp add: lastn_def)
  finally show ?thesis .
qed

section \<open>The commit loop\<close>

lemma pixel_index_eq:
  assumes "0 \<le> x" "x < 32" "0 \<le> x'" "x' < 32" "0 \<le> c" "c < 3" "0 \<le> c'" "c' < 3"
  shows "(pixel_index y x c = pixel_index y' x' c') = (y = y' \<and> x = x' \<and> c = c')"
  unfolding pixel_index_def
proof
  assume e: "(y * 32 + x) * 3 + c = (y' * 32 + x') * 3 + c'"
  have "((y * 32 + x) * 3 + c) mod 3 = c mod 3" by (rule mod_mult_self3)
  moreover have "((y' * 32 + x') * 3 + c') mod 3 = c' mod 3" by (rule mod_mult_self3)
  ultimately have "c mod 3 = c' mod 3" using e by simp
  then have c: "c = c'" using assms by simp
  with e have e2: "y * 32 + x = y' * 32 + x'" by simp
  have "(y * 32 + x) mod 32 = x mod 32" by (rule mod_mult_self3)
  moreover have "(y' * 32 + x') mod 32 = x' mod 32" by (rule mod_mult_self3)
  ultimately have "x mod 32 = x' mod 32" using e2 by simp
  then have x: "x = x'" using assms by simp
  with e2 c show "y = y' \<and> x = x' \<and> c = c'" by simp
qed simp

lemma pixel_index_bounds:
  assumes "0 \<le> y" "y < 32" "0 \<le> x" "x < 32" "0 \<le> c" "c < 3"
  shows "0 \<le> pixel_index y x c" "pixel_index y x c < 3072"
  using assms by (simp_all add: pixel_index_def)

lemma nat_pixel_index_eq:
  assumes "0 \<le> y" "y < 32" "0 \<le> x" "x < 32" "0 \<le> c" "c < 3"
    and "0 \<le> y'" "y' < 32" "0 \<le> x'" "x' < 32" "0 \<le> c'" "c' < 3"
  shows "(nat (pixel_index y x c) = nat (pixel_index y' x' c')) = (y = y' \<and> x = x' \<and> c = c')"
proof -
  have "(nat (pixel_index y x c) = nat (pixel_index y' x' c')) =
        (pixel_index y x c = pixel_index y' x' c')"
    using pixel_index_bounds(1)[OF assms(1-6)] pixel_index_bounds(1)[OF assms(7-12)] by auto
  then show ?thesis using assms by (simp add: pixel_index_eq)
qed

lemma upd6_nth:
  assumes "i0 < length xs" "i1 < length xs" "i2 < length xs"
    "i3 < length xs" "i4 < length xs" "i5 < length xs"
  shows "xs[i0 := v0, i1 := v1, i2 := v2, i3 := v3, i4 := v4, i5 := v5] ! j =
    (if i5 = j then v5 else if i4 = j then v4 else if i3 = j then v3
     else if i2 = j then v2 else if i1 = j then v1 else if i0 = j then v0 else xs ! j)"
  using assms by (simp add: nth_list_update)

lemma commit_column_fb:
  "latchedFramebufferRgb (commit_column t b x s) =
     (latchedFramebufferRgb s)
       [nat (pixel_index t x 0) := shiftRegisterGetBit x s,
        nat (pixel_index t x 1) := shiftRegisterGetBit (32 + x) s,
        nat (pixel_index t x 2) := shiftRegisterGetBit (64 + x) s,
        nat (pixel_index b x 0) := shiftRegisterGetBit (96 + x) s,
        nat (pixel_index b x 1) := shiftRegisterGetBit (128 + x) s,
        nat (pixel_index b x 2) := shiftRegisterGetBit (160 + x) s]"
  by (simp add: commit_column_def Let_def pixel_index_def)

lemma commit_column_fields [simp]:
  "shiftRegisterBits (commit_column t b x s) = shiftRegisterBits s"
  "shiftRegisterOldestIndex (commit_column t b x s) = shiftRegisterOldestIndex s"
  "shiftRegisterBitCount (commit_column t b x s) = shiftRegisterBitCount s"
  "selectedRowPairIndex (commit_column t b x s) = selectedRowPairIndex s"
  "latchLineIsLow (commit_column t b x s) = latchLineIsLow s"
  "displayIsEnabled (commit_column t b x s) = displayIsEnabled s"
  "length (latchedFramebufferRgb (commit_column t b x s)) = length (latchedFramebufferRgb s)"
  by (simp_all add: commit_column_def Let_def)

lemma commit_column_get [simp]:
  "shiftRegisterGetBit i (commit_column t b x s) = shiftRegisterGetBit i s"
  by (simp add: shiftRegisterGetBit_def)

lemma commit_column_pixel:
  assumes len: "length (latchedFramebufferRgb s) = 3072"
    and t: "0 \<le> t" "t \<le> 15" and x: "0 \<le> x" "x < 32"
    and y: "0 \<le> y" "y < 32" and x': "0 \<le> x'" "x' < 32" and c: "0 \<le> c" "c < 3"
  shows "pixel (latchedFramebufferRgb (commit_column t (t + 16) x s)) y x' c =
           (if x' = x \<and> y = t then shiftRegisterGetBit (c * 32 + x) s
            else if x' = x \<and> y = t + 16 then shiftRegisterGetBit ((3 + c) * 32 + x) s
            else pixel (latchedFramebufferRgb s) y x' c)"
proof -
  have t': "t < 32" "0 \<le> t + 16" "t + 16 < 32" using t by simp_all
  note E = nat_pixel_index_eq[OF _ _ x _ _ y x' c]
  have e:
    "(nat (pixel_index t x 0) = nat (pixel_index y x' c)) = (t = y \<and> x = x' \<and> 0 = c)"
    "(nat (pixel_index t x 1) = nat (pixel_index y x' c)) = (t = y \<and> x = x' \<and> 1 = c)"
    "(nat (pixel_index t x 2) = nat (pixel_index y x' c)) = (t = y \<and> x = x' \<and> 2 = c)"
    "(nat (pixel_index (t + 16) x 0) = nat (pixel_index y x' c)) = (t + 16 = y \<and> x = x' \<and> 0 = c)"
    "(nat (pixel_index (t + 16) x 1) = nat (pixel_index y x' c)) = (t + 16 = y \<and> x = x' \<and> 1 = c)"
    "(nat (pixel_index (t + 16) x 2) = nat (pixel_index y x' c)) = (t + 16 = y \<and> x = x' \<and> 2 = c)"
    using t t' by (simp_all add: E)
  have b: "nat (pixel_index t x 0) < length (latchedFramebufferRgb s)"
    "nat (pixel_index t x 1) < length (latchedFramebufferRgb s)"
    "nat (pixel_index t x 2) < length (latchedFramebufferRgb s)"
    "nat (pixel_index (t + 16) x 0) < length (latchedFramebufferRgb s)"
    "nat (pixel_index (t + 16) x 1) < length (latchedFramebufferRgb s)"
    "nat (pixel_index (t + 16) x 2) < length (latchedFramebufferRgb s)"
    using t x by (simp_all add: len pixel_index_def)
  have cc: "c = 0 \<or> c = 1 \<or> c = 2" using c by auto
  show ?thesis
    unfolding pixel_def commit_column_fb upd6_nth[OF b] e
    using cc by auto
qed

lemma commit_loop_fields [simp]:
  "shiftRegisterBits (commit_loop t b x s) = shiftRegisterBits s"
  "shiftRegisterOldestIndex (commit_loop t b x s) = shiftRegisterOldestIndex s"
  "shiftRegisterBitCount (commit_loop t b x s) = shiftRegisterBitCount s"
  "selectedRowPairIndex (commit_loop t b x s) = selectedRowPairIndex s"
  "latchLineIsLow (commit_loop t b x s) = latchLineIsLow s"
  "displayIsEnabled (commit_loop t b x s) = displayIsEnabled s"
  "length (latchedFramebufferRgb (commit_loop t b x s)) = length (latchedFramebufferRgb s)"
  by (induction t b x s rule: commit_loop.induct; subst commit_loop.simps; simp)+

lemma commit_loop_get [simp]:
  "shiftRegisterGetBit i (commit_loop t b x s) = shiftRegisterGetBit i s"
  by (simp add: shiftRegisterGetBit_def)

lemma commit_loop_pixel:
  assumes "length (latchedFramebufferRgb s) = 3072"
    and "b = t + 16" "0 \<le> t" "t \<le> 15" "0 \<le> x"
    and "0 \<le> y" "y < 32" "0 \<le> x'" "x' < 32" "0 \<le> c" "c < 3"
  shows "pixel (latchedFramebufferRgb (commit_loop t b x s)) y x' c =
           (if x \<le> x' \<and> y = t then shiftRegisterGetBit (c * 32 + x') s
            else if x \<le> x' \<and> y = t + 16 then shiftRegisterGetBit ((3 + c) * 32 + x') s
            else pixel (latchedFramebufferRgb s) y x' c)"
  using assms
proof (induction t b x s rule: commit_loop.induct)
  case (1 t b x s)
  show ?case
  proof (cases "x < 32")
    case True
    have ih: "pixel (latchedFramebufferRgb (commit_loop t b (x + 1) (commit_column t b x s))) y x' c =
           (if x + 1 \<le> x' \<and> y = t then shiftRegisterGetBit (c * 32 + x') s
            else if x + 1 \<le> x' \<and> y = t + 16 then shiftRegisterGetBit ((3 + c) * 32 + x') s
            else pixel (latchedFramebufferRgb (commit_column t b x s)) y x' c)"
      using "1.IH"[OF True] "1.prems" by simp
    have col: "pixel (latchedFramebufferRgb (commit_column t b x s)) y x' c =
           (if x' = x \<and> y = t then shiftRegisterGetBit (c * 32 + x) s
            else if x' = x \<and> y = t + 16 then shiftRegisterGetBit ((3 + c) * 32 + x) s
            else pixel (latchedFramebufferRgb s) y x' c)"
      using "1.prems" True commit_column_pixel[of s t x y x' c] by simp
    show ?thesis
      by (subst commit_loop.simps) (use True ih col in auto)
  next
    case False
    then show ?thesis using "1.prems" by (subst commit_loop.simps) auto
  qed
qed

section \<open>LatchRegister\<close>

lemma and15_mod: "(k::int) AND 15 = k mod 16"
proof -
  have "(15::int) = mask 4" by (simp add: mask_eq_exp_minus_1)
  then have "k AND 15 = take_bit 4 k" by (simp add: take_bit_eq_mask)
  then show ?thesis by (simp add: take_bit_eq_mod)
qed

lemma and15_bounds: "0 \<le> (k::int) AND 15" "(k::int) AND 15 \<le> 15"
  by (simp_all add: and15_mod) 

lemma and15_id: "0 \<le> (r::int) \<Longrightarrow> r \<le> 15 \<Longrightarrow> r AND 15 = r"
  by (simp add: and15_mod)

lemma int32_and15: "int32 k AND 15 = k mod 16"
proof -
  have "int32 k AND 15 = take_bit 4 (signed_take_bit 31 k)"
    by (simp add: int32_def and15_mod take_bit_eq_mod)
  also have "\<dots> = take_bit 4 k" by (simp add: take_bit_signed_take_bit)
  finally show ?thesis by (simp add: take_bit_eq_mod)
qed

lemma LatchRegister_fields [simp]:
  "shiftRegisterBits (LatchRegister s) = shiftRegisterBits s"
  "shiftRegisterOldestIndex (LatchRegister s) = shiftRegisterOldestIndex s"
  "shiftRegisterBitCount (LatchRegister s) = shiftRegisterBitCount s"
  "selectedRowPairIndex (LatchRegister s) = selectedRowPairIndex s"
  "latchLineIsLow (LatchRegister s) = False"
  "displayIsEnabled (LatchRegister s) = True"
  "length (latchedFramebufferRgb (LatchRegister s)) = length (latchedFramebufferRgb s)"
  by (simp_all add: LatchRegister_def commitShiftRegisterToFramebufferForSelectedRow_def Let_def)

lemma LatchRegister_get [simp]:
  "shiftRegisterGetBit i (LatchRegister s) = shiftRegisterGetBit i s"
  by (simp add: shiftRegisterGetBit_def)

lemma LatchRegister_logical [simp]: "logical (LatchRegister s) = logical s"
  by (simp add: logical_def)

lemma LatchRegister_wf: "wf s \<Longrightarrow> wf (LatchRegister s)"
  by (simp add: wf_def)

lemma LatchRegister_pixel:
  assumes "length (latchedFramebufferRgb s) = 3072"
    and "0 \<le> y" "y < 32" "0 \<le> x" "x < 32" "0 \<le> c" "c < 3"
  shows "pixel (latchedFramebufferRgb (LatchRegister s)) y x c =
           (if y = selectedRowPairIndex s AND 15 then shiftRegisterGetBit (c * 32 + x) s
            else if y = (selectedRowPairIndex s AND 15) + 16
              then shiftRegisterGetBit ((3 + c) * 32 + x) s
            else pixel (latchedFramebufferRgb s) y x c)"
proof -
  let ?s = "s\<lparr>latchLineIsLow := False, displayIsEnabled := True\<rparr>"
  let ?r = "selectedRowPairIndex s AND 15"
  have g: "shiftRegisterGetBit i ?s = shiftRegisterGetBit i s" for i
    by (simp add: shiftRegisterGetBit_def)
  have "pixel (latchedFramebufferRgb (commit_loop ?r (?r + 16) 0 ?s)) y x c =
           (if 0 \<le> x \<and> y = ?r then shiftRegisterGetBit (c * 32 + x) ?s
            else if 0 \<le> x \<and> y = ?r + 16 then shiftRegisterGetBit ((3 + c) * 32 + x) ?s
            else pixel (latchedFramebufferRgb ?s) y x c)"
    using assms and15_bounds[of "selectedRowPairIndex s"]
    by (intro commit_loop_pixel) simp_all
  then show ?thesis
    using assms(4)
    by (simp add: LatchRegister_def commitShiftRegisterToFramebufferForSelectedRow_def Let_def g)
qed

lemma byte_index_decomp:
  fixes j :: nat
  shows "int j = pixel_index (int (j div 96)) (int ((j mod 96) div 3)) (int (j mod 3))"
proof -
  define q where "q = j div 96"
  define m where "m = j mod 96"
  define u where "u = m div 3"
  define v where "v = m mod 3"
  have v': "v = j mod 3" unfolding v_def m_def by (simp add: mod_mod_cancel)
  have 1: "j = 96 * q + m" unfolding q_def m_def by simp
  have 2: "m = 3 * u + v" unfolding u_def v_def by simp
  have "j = (q * 32 + u) * 3 + v" unfolding 1 2 by simp
  then have "int j = int ((q * 32 + u) * 3 + v)" by (rule arg_cong)
  also have "\<dots> = pixel_index (int q) (int u) (int v)" by (simp add: pixel_index_def)
  finally show ?thesis unfolding v' unfolding q_def u_def m_def .
qed

lemma fb_eqI:
  assumes la: "length a = 3072" and lb: "length b = 3072"
    and px: "\<And>y x c. 0 \<le> y \<Longrightarrow> y < 32 \<Longrightarrow> 0 \<le> x \<Longrightarrow> x < 32 \<Longrightarrow> 0 \<le> c \<Longrightarrow> c < 3 \<Longrightarrow>
               pixel a y x c = pixel b y x c"
  shows "a = b"
proof (rule nth_equalityI)
  show "length a = length b" using la lb by simp
next
  fix j assume "j < length a"
  then have j: "j < 3072" using la by simp
  let ?y = "int (j div 96)" and ?x = "int ((j mod 96) div 3)" and ?c = "int (j mod 3)"
  have idx: "nat (pixel_index ?y ?x ?c) = j"
    using byte_index_decomp[of j] by simp
  have x: "(j mod 96) div 3 < 32" by (simp add: less_mult_imp_div_less)
  have y: "j div 96 < 32" using j by (simp add: less_mult_imp_div_less)
  have "pixel a ?y ?x ?c = pixel b ?y ?x ?c"
    using x y by (intro px) simp_all
  then show "a ! j = b ! j" by (simp only: pixel_def idx)
qed

section \<open>The operations keep states well formed\<close>

lemma wf_setupPanel: "wf (setupPanel s)"
  by (simp add: wf_def setupPanel_def)

lemma wf_power_on: "wf power_on"
  by (simp add: wf_def power_on_def)

lemma get_setupPanel:
  assumes "0 \<le> i"
  shows "shiftRegisterGetBit i (setupPanel s) = 0"
proof -
  have "nat (i mod 192) < 192" by simp
  then have "replicate 192 (0::uint8_t) ! nat (i mod 192) = 0" by (rule nth_replicate)
  then show ?thesis
    using assms by (simp add: get_wf[OF wf_setupPanel]) (simp add: setupPanel_def)
qed

lemma logical_setupPanel: "logical (setupPanel s) = replicate 192 0"
  by (rule nth_equalityI) (simp_all add: logical_nth get_setupPanel)

lemma pushbit_fields [simp]:
  "latchedFramebufferRgb (shiftRegisterPushBit b s) = latchedFramebufferRgb s"
  "selectedRowPairIndex (shiftRegisterPushBit b s) = selectedRowPairIndex s"
  "length (shiftRegisterBits (shiftRegisterPushBit b s)) = length (shiftRegisterBits s)"
  by (simp_all add: shiftRegisterPushBit_def Let_def)

lemma PushBit_fields [simp]:
  "latchedFramebufferRgb (PushBit b s) = latchedFramebufferRgb s"
  "selectedRowPairIndex (PushBit b s) = selectedRowPairIndex s"
  "length (shiftRegisterBits (PushBit b s)) = length (shiftRegisterBits s)"
  by (simp_all add: PushBit_def)

lemma push_all_fields [simp]:
  "latchedFramebufferRgb (push_all bs s) = latchedFramebufferRgb s"
  "selectedRowPairIndex (push_all bs s) = selectedRowPairIndex s"
  "length (shiftRegisterBits (push_all bs s)) = length (shiftRegisterBits s)"
  by (induction bs arbitrary: s) simp_all

lemma SelectRow_fields [simp]:
  "latchedFramebufferRgb (SelectRow row s) = latchedFramebufferRgb s"
  "shiftRegisterBits (SelectRow row s) = shiftRegisterBits s"
  "shiftRegisterOldestIndex (SelectRow row s) = shiftRegisterOldestIndex s"
  "shiftRegisterBitCount (SelectRow row s) = shiftRegisterBitCount s"
  "selectedRowPairIndex (SelectRow row s) = (row - 1) mod 16"
  by (simp_all add: SelectRow_def int32_and15)

lemma SelectRow_wf: "wf s \<Longrightarrow> wf (SelectRow row s)"
  by (simp add: wf_def)

lemma PrepareLatch_fields [simp]:
  "latchedFramebufferRgb (PrepareLatch s) = latchedFramebufferRgb s"
  "shiftRegisterBits (PrepareLatch s) = shiftRegisterBits s"
  "shiftRegisterOldestIndex (PrepareLatch s) = shiftRegisterOldestIndex s"
  "shiftRegisterBitCount (PrepareLatch s) = shiftRegisterBitCount s"
  "selectedRowPairIndex (PrepareLatch s) = selectedRowPairIndex s"
  by (simp_all add: PrepareLatch_def)

lemma PrepareLatch_wf: "wf s \<Longrightarrow> wf (PrepareLatch s)"
  by (simp add: wf_def)

lemma ClearRow_loop_push_all:
  "ClearRow_loop i s = push_all (replicate (nat (192 - i)) 0) s"
proof (induction i s rule: ClearRow_loop.induct)
  case (1 i s)
  show ?case
  proof (cases "i < 192")
    case True
    then have "nat (192 - i) = Suc (nat (192 - (i + 1)))" by simp
    then show ?thesis
      using True "1.IH"[OF True] by (subst ClearRow_loop.simps) simp
  next
    case False
    then show ?thesis by (subst ClearRow_loop.simps) simp
  qed
qed

lemma ClearRow_push_all: "ClearRow row s = push_all (replicate 192 0) (SelectRow row s)"
  by (simp add: ClearRow_def ClearRow_loop_push_all)

lemma ClearRow_wf: "wf s \<Longrightarrow> wf (ClearRow row s)"
  by (simp add: ClearRow_push_all push_all_wf SelectRow_wf)

lemma PushBit_count_full:
  "shiftRegisterBitCount s = 192 \<Longrightarrow> shiftRegisterBitCount (PushBit b s) = 192"
  by (simp add: PushBit_def push_count)

lemma push_all_count_keep:
  "shiftRegisterBitCount s = 192 \<Longrightarrow> shiftRegisterBitCount (push_all bs s) = 192"
  by (induction bs arbitrary: s) (simp_all add: PushBit_count_full)

lemma exec_wf: "wf s \<Longrightarrow> wf (exec c s)"
  by (cases c)
     (simp_all add: wf_setupPanel PrepareLatch_wf LatchRegister_wf SelectRow_wf PushBit_wf
        ClearRow_wf)

lemma exec_count:
  "shiftRegisterBitCount s = 192 \<Longrightarrow> shiftRegisterBitCount (exec c s) = 192"
  by (cases c)
     (simp_all add: PushBit_count_full ClearRow_push_all push_all_count_keep, simp add: setupPanel_def)

lemma run_wf: "wf s \<Longrightarrow> wf (run cs s)"
  by (induction cs arbitrary: s) (simp_all add: exec_wf)

lemma run_count:
  "shiftRegisterBitCount s = 192 \<Longrightarrow> shiftRegisterBitCount (run cs s) = 192"
  by (induction cs arbitrary: s) (simp_all add: exec_count)

lemma get_logical:
  "0 \<le> i \<Longrightarrow> i < 192 \<Longrightarrow> shiftRegisterGetBit i s = logical s ! nat i"
  by (simp add: logical_nth)

lemma latch_cong:
  assumes "wf s" "wf t" "logical s = logical t"
    and "selectedRowPairIndex s = selectedRowPairIndex t"
    and "latchedFramebufferRgb s = latchedFramebufferRgb t"
  shows "latchedFramebufferRgb (LatchRegister s) = latchedFramebufferRgb (LatchRegister t)"
proof (rule fb_eqI)
  show "length (latchedFramebufferRgb (LatchRegister s)) = 3072"
    using assms(1) by (simp add: wf_def)
  show "length (latchedFramebufferRgb (LatchRegister t)) = 3072"
    using assms(2) by (simp add: wf_def)
next
  fix y x c :: int
  assume r: "0 \<le> y" "y < 32" "0 \<le> x" "x < 32" "0 \<le> c" "c < 3"
  have ls: "length (latchedFramebufferRgb s) = 3072" using assms(1) by (simp add: wf_def)
  have lt: "length (latchedFramebufferRgb t) = 3072" using assms(2) by (simp add: wf_def)
  have i1: "0 \<le> c * 32 + x" "c * 32 + x < 192" using r by simp_all
  have i2: "0 \<le> (3 + c) * 32 + x" "(3 + c) * 32 + x < 192" using r by simp_all
  show "pixel (latchedFramebufferRgb (LatchRegister s)) y x c =
        pixel (latchedFramebufferRgb (LatchRegister t)) y x c"
    unfolding LatchRegister_pixel[OF ls r] LatchRegister_pixel[OF lt r]
      get_logical[OF i1] get_logical[OF i2]
    using assms(3-5) by simp
qed

section \<open>Framebuffer bytes are bits\<close>

lemma get01: "shiftRegisterGetBit i s = 0 \<or> shiftRegisterGetBit i s = 1"
proof -
  have "(w :: uint8_t) AND 1 = 0 \<or> w AND 1 = 1" for w
    by (cases "even w") (simp_all add: and_one_eq mod_2_eq_odd)
  then show ?thesis by (simp add: shiftRegisterGetBit_def Let_def)
qed

lemma upd01:
  assumes "set xs \<subseteq> {0, 1 :: uint8_t}" "v = 0 \<or> v = 1"
  shows "set (xs[i := v]) \<subseteq> {0, 1}"
  using assms set_update_subset_insert[of xs i v] by auto

lemma commit_column_01:
  assumes "set (latchedFramebufferRgb s) \<subseteq> {0, 1}"
  shows "set (latchedFramebufferRgb (commit_column t b x s)) \<subseteq> {0, 1}"
  unfolding commit_column_fb
  by (intro upd01 assms get01)

lemma commit_loop_01:
  "set (latchedFramebufferRgb s) \<subseteq> {0, 1} \<Longrightarrow>
   set (latchedFramebufferRgb (commit_loop t b x s)) \<subseteq> {0, 1}"
proof (induction t b x s rule: commit_loop.induct)
  case (1 t b x s)
  show ?case
  proof (cases "x < 32")
    case True
    then show ?thesis
      using "1.IH"[OF True commit_column_01[OF "1.prems"]]
      by (subst commit_loop.simps) simp
  next
    case False
    then show ?thesis using "1.prems" by (subst commit_loop.simps) simp
  qed
qed

lemma LatchRegister_01:
  "set (latchedFramebufferRgb s) \<subseteq> {0, 1} \<Longrightarrow>
   set (latchedFramebufferRgb (LatchRegister s)) \<subseteq> {0, 1}"
  by (simp add: LatchRegister_def commitShiftRegisterToFramebufferForSelectedRow_def Let_def
        commit_loop_01)

lemma exec_01:
  "set (latchedFramebufferRgb s) \<subseteq> {0, 1} \<Longrightarrow>
   set (latchedFramebufferRgb (exec c s)) \<subseteq> {0, 1}"
  by (cases c) (simp_all add: LatchRegister_01 ClearRow_push_all, simp add: setupPanel_def)

lemma run_01:
  "set (latchedFramebufferRgb s) \<subseteq> {0, 1} \<Longrightarrow>
   set (latchedFramebufferRgb (run cs s)) \<subseteq> {0, 1}"
  by (induction cs arbitrary: s) (simp_all add: exec_01)

lemma exec_fb_length:
  "length (latchedFramebufferRgb s) = 3072 \<Longrightarrow> length (latchedFramebufferRgb (exec c s)) = 3072"
  by (cases c) (simp_all add: ClearRow_push_all, simp add: setupPanel_def)

section \<open>The buffer after the initialisation\<close>

lemma setupPanel_fields [simp]:
  "latchedFramebufferRgb (setupPanel s) = replicate 3072 0"
  "shiftRegisterBits (setupPanel s) = replicate 192 0"
  "shiftRegisterOldestIndex (setupPanel s) = 0"
  "shiftRegisterBitCount (setupPanel s) = 192"
  "selectedRowPairIndex (setupPanel s) = 0"
  by (simp_all add: setupPanel_def)

lemma logical_eq_retained: "shiftRegisterBitCount s = 192 \<Longrightarrow> logical s = retained s"
  by (simp add: retained_def)

lemma logical_push_all_init:
  "logical (push_all bs (setupPanel s)) = lastn 192 (replicate 192 0 @ map bit_of_int bs)"
proof -
  have "logical (push_all bs (setupPanel s)) = retained (push_all bs (setupPanel s))"
    by (simp add: logical_eq_retained push_all_count_keep)
  also have "\<dots> = lastn 192 (retained (setupPanel s) @ map bit_of_int bs)"
    by (simp add: retained_push_all wf_setupPanel)
  also have "retained (setupPanel s) = replicate 192 0"
    by (simp add: logical_eq_retained[symmetric] logical_setupPanel)
  finally show ?thesis .
qed

lemma lastn_nth: "n \<le> length xs \<Longrightarrow> i < n \<Longrightarrow> lastn n xs ! i = xs ! (length xs - n + i)"
  by (simp add: lastn_def)

lemma init_push_get:
  assumes "i < 192"
  shows "shiftRegisterGetBit (int i) (push_all bs (setupPanel s)) =
         (replicate 192 0 @ map bit_of_int bs) ! (length bs + i)"
proof -
  let ?xs = "replicate 192 (0::uint8_t) @ map bit_of_int bs"
  have "shiftRegisterGetBit (int i) (push_all bs (setupPanel s)) = lastn 192 ?xs ! i"
    using assms by (simp only: logical_nth[symmetric] logical_push_all_init)
  also have "\<dots> = ?xs ! (length ?xs - 192 + i)"
    using assms by (intro lastn_nth) simp_all
  also have "length ?xs - 192 + i = length bs + i" by simp
  finally show ?thesis .
qed


section \<open>Every subscript is inside its array\<close>

lemma push_index_in_bounds:
  assumes "wf s"
  shows "0 \<le> (shiftRegisterOldestIndex s + shiftRegisterBitCount s) smod 192"
    and "(shiftRegisterOldestIndex s + shiftRegisterBitCount s) smod 192 < 192"
    and "0 \<le> ((shiftRegisterOldestIndex s + 1) smod 192 + 192 - 1) smod 192"
    and "((shiftRegisterOldestIndex s + 1) smod 192 + 192 - 1) smod 192 < 192"
  using assms by (simp_all add: wf_def smod_nonneg)

lemma get_index_in_bounds:
  assumes "wf s" "0 \<le> i"
  shows "0 \<le> (shiftRegisterOldestIndex s + i) smod 192"
    and "(shiftRegisterOldestIndex s + i) smod 192 < 192"
  using assms by (simp_all add: wf_def smod_nonneg)

lemma row_index_in_bounds:
  fixes r x :: int
  assumes "0 \<le> r" "r \<le> 15" "0 \<le> x" "x < 32"
  shows "0 \<le> (r * 32 + x) * 3" and "((r + 16) * 32 + x) * 3 + 2 < 3072"
  using assms by simp_all

lemma commit_index_in_bounds:
  fixes k x :: int
  assumes "0 \<le> x" "x < 32"
  shows "0 \<le> ((k AND 15) * 32 + x) * 3"
    and "(((k AND 15) + 16) * 32 + x) * 3 + 2 < 3072"
  by (rule row_index_in_bounds[OF and15_bounds assms])+

section \<open>Facts about the example states\<close>

lemma SelectRow_logical [simp]: "logical (SelectRow row s) = logical s"
  by (simp add: logical_def shiftRegisterGetBit_def)

lemma example_latched_wf: "wf example_latched"
  unfolding example_latched_def
  by (intro LatchRegister_wf push_all_wf SelectRow_wf wf_setupPanel)

lemma example_latched_sel: "selectedRowPairIndex example_latched = 5"
  by (simp add: example_latched_def)

lemma example_latched_logical: "logical example_latched = replicate 192 1"
proof -
  have w: "wf (SelectRow 6 (setupPanel power_on))"
    by (intro SelectRow_wf wf_setupPanel)
  have "logical example_latched = lastn 192 (map bit_of_int (replicate 192 1))"
    unfolding example_latched_def LatchRegister_logical
    by (rule logical_push_all[OF w]) simp
  then show ?thesis by (simp add: lastn_def bit_of_int_def)
qed

lemma example_latched_pixel:
  assumes "0 \<le> y" "y < 32" "0 \<le> x" "x < 32" "0 \<le> c" "c < 3"
  shows "pixel (latchedFramebufferRgb example_latched) y x c = (if y = 5 \<or> y = 21 then 1 else 0)"
proof -
  let ?t = "push_all (replicate 192 1) (SelectRow 6 (setupPanel power_on))"
  have len: "length (latchedFramebufferRgb ?t) = 3072" by simp
  have lg: "logical ?t = replicate 192 1"
    using example_latched_logical by (simp add: example_latched_def)
  have i1: "0 \<le> c * 32 + x" "c * 32 + x < 192" using assms by simp_all
  have i2: "0 \<le> (3 + c) * 32 + x" "(3 + c) * 32 + x < 192" using assms by simp_all
  have n1: "nat (c * 32 + x) < 192" using i1 by simp
  have n2: "nat ((3 + c) * 32 + x) < 192" using i2 by simp
  have z: "pixel (replicate 3072 0) y x c = (0::uint8_t)"
    unfolding pixel_def
    using pixel_index_bounds[OF assms] by (intro nth_replicate) simp
  have s5: "selectedRowPairIndex ?t AND 15 = 5" by simp
  show ?thesis
    unfolding example_latched_def LatchRegister_pixel[OF len assms] s5
      get_logical[OF i1] get_logical[OF i2] lg nth_replicate[OF n1] nth_replicate[OF n2]
    using z by simp
qed

lemma example_loaded_wf: "wf example_loaded"
  unfolding example_loaded_def
  by (intro push_all_wf SelectRow_wf example_latched_wf)

lemma example_loaded_sel: "selectedRowPairIndex example_loaded = 2"
  by (simp add: example_loaded_def)

lemma example_loaded_fb:
  "latchedFramebufferRgb example_loaded = latchedFramebufferRgb example_latched"
  by (simp add: example_loaded_def)

lemma example_loaded_logical: "logical example_loaded = replicate 96 1 @ replicate 96 0"
proof -
  have w: "wf (SelectRow 3 example_latched)"
    by (intro SelectRow_wf example_latched_wf)
  have "logical example_loaded = lastn 192 (map bit_of_int example_payload)"
    unfolding example_loaded_def
    by (rule logical_push_all[OF w]) (simp add: example_payload_def)
  then show ?thesis by (simp add: lastn_def bit_of_int_def example_payload_def)
qed

lemma example_loaded_get:
  "shiftRegisterGetBit 7 example_loaded = 1" "shiftRegisterGetBit 103 example_loaded = 0"
proof -
  have "shiftRegisterGetBit 7 example_loaded = logical example_loaded ! nat 7"
    by (rule get_logical) simp_all
  then show "shiftRegisterGetBit 7 example_loaded = 1"
    by (simp add: example_loaded_logical nth_append)
  have "shiftRegisterGetBit 103 example_loaded = logical example_loaded ! nat 103"
    by (rule get_logical) simp_all
  then show "shiftRegisterGetBit 103 example_loaded = 0"
    by (simp add: example_loaded_logical nth_append)
qed

lemma example_loaded_latch_changes:
  "latchedFramebufferRgb (LatchRegister example_loaded) \<noteq> latchedFramebufferRgb example_loaded"
proof
  assume e: "latchedFramebufferRgb (LatchRegister example_loaded) =
             latchedFramebufferRgb example_loaded"
  have len: "length (latchedFramebufferRgb example_loaded) = 3072"
    using example_loaded_wf by (simp add: wf_def)
  have "pixel (latchedFramebufferRgb (LatchRegister example_loaded)) 2 7 0 = 1"
    by (simp add: LatchRegister_pixel[OF len] example_loaded_sel example_loaded_get)
  moreover have "pixel (latchedFramebufferRgb example_loaded) 2 7 0 = 0"
    by (simp add: example_loaded_fb example_latched_pixel)
  ultimately show False using e by simp
qed

lemma ClearRow_example_latched_changes: "ClearRow 6 example_latched \<noteq> example_latched"
proof
  assume e: "ClearRow 6 example_latched = example_latched"
  have w: "wf (SelectRow 6 example_latched)"
    by (intro SelectRow_wf example_latched_wf)
  have "logical (ClearRow 6 example_latched) = lastn 192 (map bit_of_int (replicate 192 0))"
    unfolding ClearRow_push_all by (rule logical_push_all[OF w]) simp
  then have "logical (ClearRow 6 example_latched) = replicate 192 0"
    by (simp add: lastn_def bit_of_int_def)
  then show False using e example_latched_logical by simp
qed

section \<open>The properties\<close>

text \<open>
  \<^bold>\<open>C1.\<close> In every well-formed state with selected row address \<open>r\<close> in 0..15,
  \<open>LatchRegister\<close> reads the 192 logical bits as six planes of 32 bits, in the order
  top R, top G, top B, bottom R, bottom G, bottom B: for every column \<open>x\<close> in 0..31 the
  pixel in row \<open>r\<close> gets its R, G, B bytes from logical bits \<open>0 * 32 + x\<close>,
  \<open>1 * 32 + x\<close>, \<open>2 * 32 + x\<close>, and the pixel in row \<open>r + 16\<close> from logical bits
  \<open>3 * 32 + x\<close>, \<open>4 * 32 + x\<close>, \<open>5 * 32 + x\<close>.
\<close>

theorem C1_latch_decodes_six_planes:
  assumes "wf s" and "selectedRowPairIndex s = r" and "0 \<le> r" and "r \<le> 15"
    and "0 \<le> x" and "x < 32"
  shows "pixel (latchedFramebufferRgb (LatchRegister s)) r x 0 = shiftRegisterGetBit (0 * 32 + x) s
       \<and> pixel (latchedFramebufferRgb (LatchRegister s)) r x 1 = shiftRegisterGetBit (1 * 32 + x) s
       \<and> pixel (latchedFramebufferRgb (LatchRegister s)) r x 2 = shiftRegisterGetBit (2 * 32 + x) s
       \<and> pixel (latchedFramebufferRgb (LatchRegister s)) (r + 16) x 0 = shiftRegisterGetBit (3 * 32 + x) s
       \<and> pixel (latchedFramebufferRgb (LatchRegister s)) (r + 16) x 1 = shiftRegisterGetBit (4 * 32 + x) s
       \<and> pixel (latchedFramebufferRgb (LatchRegister s)) (r + 16) x 2 = shiftRegisterGetBit (5 * 32 + x) s"
proof -
  have len: "length (latchedFramebufferRgb s) = 3072" using assms(1) by (simp add: wf_def)
  have r: "selectedRowPairIndex s AND 15 = r" using assms(2-4) by (simp add: and15_id)
  have top: "pixel (latchedFramebufferRgb (LatchRegister s)) r x c = shiftRegisterGetBit (c * 32 + x) s"
    if "0 \<le> c" "c < 3" for c
    using that assms(3-6) by (simp add: LatchRegister_pixel[OF len] r)
  have bot: "pixel (latchedFramebufferRgb (LatchRegister s)) (r + 16) x c =
             shiftRegisterGetBit ((3 + c) * 32 + x) s"
    if "0 \<le> c" "c < 3" for c
    using that assms(3-6) by (simp add: LatchRegister_pixel[OF len] r)
  show ?thesis
    using top[of 0] top[of 1] top[of 2] bot[of 0] bot[of 1] bot[of 2] by simp
qed

text \<open>An instance: after 32 one-bits pushed into the initialised panel, the newest plane
  (bottom B) is all ones and the oldest plane (top R) is still zero.\<close>

theorem C1_witness:
  "wf (push_all (replicate 32 1) (setupPanel power_on))
   \<and> pixel (latchedFramebufferRgb
        (LatchRegister (push_all (replicate 32 1) (setupPanel power_on)))) 16 7 2 = 1
   \<and> pixel (latchedFramebufferRgb
        (LatchRegister (push_all (replicate 32 1) (setupPanel power_on)))) 0 7 0 = 0"
proof -
  let ?s = "push_all (replicate 32 1) (setupPanel power_on)"
  have w: "wf ?s" by (simp add: push_all_wf wf_setupPanel)
  have g1: "shiftRegisterGetBit 167 ?s = 1"
    using init_push_get[of 167 "replicate 32 1" power_on]
    by (simp add: nth_append bit_of_int_def)
  have g2: "shiftRegisterGetBit 7 ?s = 0"
    using init_push_get[of 7 "replicate 32 1" power_on]
    by (simp add: nth_append)
  show ?thesis
    using C1_latch_decodes_six_planes[OF w, of 0 7] w g1 g2 by simp
qed

text \<open>
  \<^bold>\<open>C2.\<close> Starting from the state \<open>setupPanel\<close> leaves, after any sequence of
  pushes logical index 191 holds the bit pushed last, and logical index 0 holds the 192nd
  most recent push (the oldest one still retained), or the initial zero when fewer than 192
  bits have been pushed. A pushed value counts as the bit 1 when it is non-zero.
\<close>

theorem C2_newest_and_oldest_bit:
  "shiftRegisterGetBit 191 (push_all (bs @ [b]) (setupPanel s)) = bit_of_int b
   \<and> shiftRegisterGetBit 0 (push_all bs (setupPanel s)) =
       (if 192 \<le> length bs then bit_of_int (bs ! (length bs - 192)) else 0)"
proof
  have "shiftRegisterGetBit (int 191) (push_all (bs @ [b]) (setupPanel s)) =
        (replicate 192 0 @ map bit_of_int (bs @ [b])) ! (length (bs @ [b]) + 191)"
    by (rule init_push_get) simp
  also have "\<dots> = bit_of_int b"
    by (simp add: nth_append)
  finally show "shiftRegisterGetBit 191 (push_all (bs @ [b]) (setupPanel s)) = bit_of_int b"
    by simp
next
  have "shiftRegisterGetBit (int 0) (push_all bs (setupPanel s)) =
        (replicate 192 0 @ map bit_of_int bs) ! (length bs + 0)"
    by (rule init_push_get) simp
  also have "\<dots> = (if 192 \<le> length bs then bit_of_int (bs ! (length bs - 192)) else 0)"
    by (simp add: nth_append)
  finally show "shiftRegisterGetBit 0 (push_all bs (setupPanel s)) =
       (if 192 \<le> length bs then bit_of_int (bs ! (length bs - 192)) else 0)"
    by simp
qed

text \<open>An instance of C2 on the initialised panel.\<close>

theorem C2_witness:
  "shiftRegisterGetBit 191 (push_all ([1, 0] @ [5]) (setupPanel power_on)) = 1
   \<and> shiftRegisterGetBit 0 (push_all [1, 0] (setupPanel power_on)) = 0"
  using C2_newest_and_oldest_bit[of "[1, 0]" 5 power_on] by (simp add: bit_of_int_def)

text \<open>
  \<^bold>\<open>C3.\<close> After \<open>192 + k\<close> pushes into any well-formed state, \<open>LatchRegister\<close>
  commits rows \<open>r\<close> and \<open>r + 16\<close> as the decode of the last 192 pushed values alone
  (\<open>drop k bs\<close>): neither the first \<open>k\<close> values nor the earlier buffer contents appear
  in the result.
\<close>

theorem C3_overflow_uses_final_192:
  assumes "wf s" and "length bs = 192 + k"
    and "selectedRowPairIndex s = r" and "0 \<le> r" and "r \<le> 15"
    and "0 \<le> x" and "x < 32" and "0 \<le> c" and "c < 3"
  shows "pixel (latchedFramebufferRgb (LatchRegister (push_all bs s))) r x c =
           bit_of_int (drop k bs ! nat (c * 32 + x))
       \<and> pixel (latchedFramebufferRgb (LatchRegister (push_all bs s))) (r + 16) x c =
           bit_of_int (drop k bs ! nat ((3 + c) * 32 + x))"
proof -
  let ?t = "push_all bs s"
  have wt: "wf ?t" using assms(1) by (rule push_all_wf)
  have len: "length (latchedFramebufferRgb ?t) = 3072" using wt by (simp add: wf_def)
  have r: "selectedRowPairIndex s AND 15 = r" using assms(3-5) by (simp add: and15_id)
  have lg: "logical ?t = map bit_of_int (drop k bs)"
    using assms(1,2) by (simp add: logical_push_all lastn_def drop_map)
  have i1: "0 \<le> c * 32 + x" "c * 32 + x < 192" using assms(6-9) by simp_all
  have i2: "0 \<le> (3 + c) * 32 + x" "(3 + c) * 32 + x < 192" using assms(6-9) by simp_all
  have n1: "nat (c * 32 + x) < length (drop k bs)" using i1 assms(2) by simp
  have n2: "nat ((3 + c) * 32 + x) < length (drop k bs)" using i2 assms(2) by simp
  have p1: "pixel (latchedFramebufferRgb (LatchRegister ?t)) r x c =
        shiftRegisterGetBit (c * 32 + x) ?t"
    using assms(4-9) by (simp add: LatchRegister_pixel[OF len] r)
  have p2: "pixel (latchedFramebufferRgb (LatchRegister ?t)) (r + 16) x c =
        shiftRegisterGetBit ((3 + c) * 32 + x) ?t"
    using assms(4-9) by (simp add: LatchRegister_pixel[OF len] r)
  show ?thesis
    unfolding p1 p2 get_logical[OF i1] get_logical[OF i2] lg
    using n1 n2 by (simp only: nth_map)
qed

text \<open>An instance of C3 on the initialised panel.\<close>

theorem C3_witness:
  "pixel (latchedFramebufferRgb
      (LatchRegister (push_all (replicate 10 0 @ replicate 192 1) (setupPanel power_on)))) 0 4 1 = 1
   \<and> pixel (latchedFramebufferRgb
      (LatchRegister (push_all (replicate 10 0 @ replicate 192 1) (setupPanel power_on)))) 16 4 1 = 1"
  using C3_overflow_uses_final_192[OF wf_setupPanel, of "replicate 10 0 @ replicate 192 1" 10
          power_on 0 4 1]
  by (simp add: bit_of_int_def)

text \<open>
  \<^bold>\<open>C4\<close> (as amended). \<open>SelectRow row\<close> stores \<open>(row - 1) mod 16\<close>, for every
  \<open>int\<close> argument, the wrap-around of \<open>row - 1\<close> at the smallest \<open>int\<close> included. So
  \<open>SelectRow 0\<close> selects row address 15 and \<open>SelectRow 17\<close> selects row address 0.
\<close>

theorem C4_SelectRow_address:
  "selectedRowPairIndex (SelectRow row s) = (row - 1) mod 16
   \<and> selectedRowPairIndex (SelectRow 0 s) = 15
   \<and> selectedRowPairIndex (SelectRow 17 s) = 0"
  by simp

text \<open>The two calls do not both select row address 0: \<open>(0 - 1) & 0x0F\<close> is 15.\<close>

theorem C4_counterexample:
  "\<not> (selectedRowPairIndex (SelectRow 0 power_on) = 0 \<and>
      selectedRowPairIndex (SelectRow 17 power_on) = 0)"
  by simp

text \<open>
  \<^bold>\<open>C5.\<close> In every well-formed state with selected row address \<open>r\<close>, a
  \<open>LatchRegister\<close> call overwrites rows \<open>r\<close> and \<open>r + 16\<close>: every byte of row
  \<open>r\<close> becomes the logical bit \<open>c * 32 + x\<close> and every byte of row \<open>r + 16\<close> the
  logical bit \<open>(3 + c) * 32 + x\<close> of the buffer, whatever the framebuffer held. Every
  pixel of every other row is left as it was, and the framebuffer keeps its size.
\<close>

theorem C5_latch_frame:
  assumes "wf s" and "selectedRowPairIndex s = r" and "0 \<le> r" and "r \<le> 15"
    and "0 \<le> y" and "y < 32" and "0 \<le> x" and "x < 32" and "0 \<le> c" and "c < 3"
  shows "pixel (latchedFramebufferRgb (LatchRegister s)) r x c = shiftRegisterGetBit (c * 32 + x) s
       \<and> pixel (latchedFramebufferRgb (LatchRegister s)) (r + 16) x c =
           shiftRegisterGetBit ((3 + c) * 32 + x) s
       \<and> (y \<noteq> r \<and> y \<noteq> r + 16 \<longrightarrow>
           pixel (latchedFramebufferRgb (LatchRegister s)) y x c =
           pixel (latchedFramebufferRgb s) y x c)
       \<and> length (latchedFramebufferRgb (LatchRegister s)) = length (latchedFramebufferRgb s)"
proof -
  have len: "length (latchedFramebufferRgb s) = 3072" using assms(1) by (simp add: wf_def)
  have r: "selectedRowPairIndex s AND 15 = r" using assms(2-4) by (simp add: and15_id)
  have top: "pixel (latchedFramebufferRgb (LatchRegister s)) r x c =
             shiftRegisterGetBit (c * 32 + x) s"
    using assms(3,4,7-10) by (simp add: LatchRegister_pixel[OF len] r)
  have bot: "pixel (latchedFramebufferRgb (LatchRegister s)) (r + 16) x c =
             shiftRegisterGetBit ((3 + c) * 32 + x) s"
    using assms(3,4,7-10) by (simp add: LatchRegister_pixel[OF len] r)
  have oth: "y \<noteq> r \<and> y \<noteq> r + 16 \<longrightarrow>
           pixel (latchedFramebufferRgb (LatchRegister s)) y x c =
           pixel (latchedFramebufferRgb s) y x c"
    using assms(5-10) by (simp add: LatchRegister_pixel[OF len] r)
  show ?thesis using top bot oth by simp
qed

text \<open>An instance on \<open>example_loaded\<close>, selected row address 2: the latch turns
  pixel (2, 7).R from 0 to 1, writes 0 to pixel (18, 7).R, and keeps the 1 that the earlier
  latch left in pixel (5, 7).R.\<close>

theorem C5_witness:
  "pixel (latchedFramebufferRgb example_loaded) 2 7 0 = 0
   \<and> pixel (latchedFramebufferRgb (LatchRegister example_loaded)) 2 7 0 = 1
   \<and> pixel (latchedFramebufferRgb (LatchRegister example_loaded)) 18 7 0 = 0
   \<and> pixel (latchedFramebufferRgb (LatchRegister example_loaded)) 5 7 0 = 1"
proof -
  have a: "pixel (latchedFramebufferRgb example_loaded) 2 7 0 = 0"
    by (simp add: example_loaded_fb example_latched_pixel)
  have b: "pixel (latchedFramebufferRgb example_loaded) 5 7 0 = 1"
    by (simp add: example_loaded_fb example_latched_pixel)
  show ?thesis
    using C5_latch_frame[OF example_loaded_wf example_loaded_sel, of 5 7 0] a b example_loaded_get
    by simp
qed

text \<open>
  \<^bold>\<open>C6.\<close> After \<open>setupPanel\<close> and any sequence of driver calls the bit count is
  192 and the bit array has its 192 cells; right after \<open>setupPanel\<close> all 192 logical
  bits are zero. \<open>shiftRegisterGetBit\<close> is a pure read and changes nothing.
\<close>

theorem C6_buffer_always_full:
  "shiftRegisterBitCount (run cs (setupPanel s)) = 192
   \<and> length (shiftRegisterBits (run cs (setupPanel s))) = 192
   \<and> logical (setupPanel s) = replicate 192 0"
proof -
  have "wf (run cs (setupPanel s))" by (simp add: run_wf wf_setupPanel)
  then have "length (shiftRegisterBits (run cs (setupPanel s))) = 192" by (simp add: wf_def)
  then show ?thesis by (simp add: run_count logical_setupPanel)
qed

text \<open>An instance of C6 on the initialised panel.\<close>

theorem C6_witness:
  "shiftRegisterBitCount
     (run [Call_ClearRow 3, Call_PrepareLatch, Call_SelectRow 4, Call_PushBit 1, Call_LatchRegister]
        (setupPanel power_on)) = 192"
  using C6_buffer_always_full[of
      "[Call_ClearRow 3, Call_PrepareLatch, Call_SelectRow 4, Call_PushBit 1, Call_LatchRegister]"
      power_on]
  by simp

text \<open>
  \<^bold>\<open>C7.\<close> In every well-formed state a second \<open>LatchRegister\<close> directly after a
  first one leaves the framebuffer as the first one made it.
\<close>

theorem C7_latch_idempotent:
  assumes "wf s"
  shows "latchedFramebufferRgb (LatchRegister (LatchRegister s)) =
         latchedFramebufferRgb (LatchRegister s)"
proof (rule fb_eqI)
  have len: "length (latchedFramebufferRgb s) = 3072" using assms by (simp add: wf_def)
  then show l1: "length (latchedFramebufferRgb (LatchRegister s)) = 3072" by simp
  then show "length (latchedFramebufferRgb (LatchRegister (LatchRegister s))) = 3072" by simp
  fix y x c :: int
  assume b: "0 \<le> y" "y < 32" "0 \<le> x" "x < 32" "0 \<le> c" "c < 3"
  show "pixel (latchedFramebufferRgb (LatchRegister (LatchRegister s))) y x c =
        pixel (latchedFramebufferRgb (LatchRegister s)) y x c"
    unfolding LatchRegister_pixel[OF l1 b]
    by (simp add: LatchRegister_pixel[OF len b])
qed

text \<open>An instance on \<open>example_loaded\<close>, where the first latch changes the
  framebuffer and the second one does not.\<close>

theorem C7_witness:
  "latchedFramebufferRgb (LatchRegister example_loaded) \<noteq> latchedFramebufferRgb example_loaded
   \<and> latchedFramebufferRgb (LatchRegister (LatchRegister example_loaded)) =
     latchedFramebufferRgb (LatchRegister example_loaded)"
  using C7_latch_idempotent[OF example_loaded_wf] example_loaded_latch_changes by simp

text \<open>
  \<^bold>\<open>C8.\<close> \<open>ClearRow row\<close> is \<open>SelectRow row\<close> followed by 192 pushes of zero.
  When exactly 192 bits are pushed before the next \<open>LatchRegister\<close>, the committed
  framebuffer is the same with and without the \<open>ClearRow\<close> call, provided the row
  selected at the latch is the same: either because a \<open>SelectRow\<close> follows, or because
  \<open>ClearRow\<close> selects the row address that was selected already.
\<close>

theorem C8_ClearRow_redundant:
  assumes "wf s" and "length bs = 192"
  shows "ClearRow row s = push_all (replicate 192 0) (SelectRow row s)
       \<and> latchedFramebufferRgb (LatchRegister (push_all bs (SelectRow r (ClearRow row s)))) =
         latchedFramebufferRgb (LatchRegister (push_all bs (SelectRow r s)))
       \<and> (selectedRowPairIndex s = (row - 1) mod 16 \<longrightarrow>
           latchedFramebufferRgb (LatchRegister (push_all bs (ClearRow row s))) =
           latchedFramebufferRgb (LatchRegister (push_all bs s)))"
proof (intro conjI impI)
  show "ClearRow row s = push_all (replicate 192 0) (SelectRow row s)"
    by (rule ClearRow_push_all)
next
  have w1: "wf (SelectRow r (ClearRow row s))" using assms(1) by (simp add: SelectRow_wf ClearRow_wf)
  have w2: "wf (SelectRow r s)" using assms(1) by (simp add: SelectRow_wf)
  show "latchedFramebufferRgb (LatchRegister (push_all bs (SelectRow r (ClearRow row s)))) =
        latchedFramebufferRgb (LatchRegister (push_all bs (SelectRow r s)))"
    using assms(2) w1 w2
    by (intro latch_cong push_all_wf) (simp_all add: logical_push_all ClearRow_push_all)
next
  assume sel: "selectedRowPairIndex s = (row - 1) mod 16"
  have w1: "wf (ClearRow row s)" using assms(1) by (simp add: ClearRow_wf)
  show "latchedFramebufferRgb (LatchRegister (push_all bs (ClearRow row s))) =
        latchedFramebufferRgb (LatchRegister (push_all bs s))"
    using assms w1 sel
    by (intro latch_cong push_all_wf) (simp_all add: logical_push_all ClearRow_push_all)
qed

text \<open>An instance on \<open>example_latched\<close>, whose buffer holds 192 ones: \<open>ClearRow 6\<close>
  changes that state (it zeroes the buffer), and the frame latched after the 192-bit payload
  is the same with and without it.\<close>

theorem C8_witness:
  "ClearRow 6 example_latched \<noteq> example_latched
   \<and> latchedFramebufferRgb
       (LatchRegister (push_all example_payload (SelectRow 3 (ClearRow 6 example_latched)))) =
     latchedFramebufferRgb
       (LatchRegister (push_all example_payload (SelectRow 3 example_latched)))
   \<and> latchedFramebufferRgb
       (LatchRegister (push_all example_payload (ClearRow 6 example_latched))) =
     latchedFramebufferRgb
       (LatchRegister (push_all example_payload example_latched))"
proof -
  have l: "length example_payload = 192" by (simp add: example_payload_def)
  have sel: "selectedRowPairIndex example_latched = (6 - 1) mod 16"
    by (simp add: example_latched_sel)
  from C8_ClearRow_redundant[OF example_latched_wf l, of 6 3] sel
    ClearRow_example_latched_changes
  show ?thesis by blast
qed

text \<open>
  \<^bold>\<open>C10.\<close> After \<open>setupPanel\<close> and any sequence of driver calls, with any
  \<open>int\<close> arguments to \<open>PushBit\<close>, every byte of the latched framebuffer is 0 or 1,
  and the framebuffer has its 3072 bytes.
\<close>

theorem C10_framebuffer_bytes_are_bits:
  "set (latchedFramebufferRgb (run cs (setupPanel s))) \<subseteq> {0, 1}
   \<and> length (latchedFramebufferRgb (run cs (setupPanel s))) = 3072"
proof -
  have "wf (run cs (setupPanel s))" by (simp add: run_wf wf_setupPanel)
  then have "length (latchedFramebufferRgb (run cs (setupPanel s))) = 3072" by (simp add: wf_def)
  moreover have "set (latchedFramebufferRgb (run cs (setupPanel s))) \<subseteq> {0, 1}"
    by (rule run_01) simp
  ultimately show ?thesis by simp
qed

text \<open>An instance of C10 on the initialised panel.\<close>

theorem C10_witness:
  "set (latchedFramebufferRgb
     (run [Call_PushBit 7, Call_PushBit (- 3), Call_LatchRegister] (setupPanel power_on)))
   \<subseteq> {0, 1}"
  using C10_framebuffer_bytes_are_bits[of
      "[Call_PushBit 7, Call_PushBit (- 3), Call_LatchRegister]" power_on]
  by simp


end
